theory Spec2Isabelle
  imports Main
begin

section \<open>Byte strings and insertion-ordered dictionaries\<close>

text \<open>
  The script \<^verbatim>\<open>add_metadata_to_python_using_parquet_and_arrow.py\<close> keeps the schema
  metadata of an Arrow table in a Python \<^verbatim>\<open>dict\<close> from \<^verbatim>\<open>bytes\<close> to \<^verbatim>\<open>bytes\<close>.
  A \<^verbatim>\<open>bytes\<close> object is a sequence of octets; a HOL \<^typ>\<open>char\<close> is one octet, so a
  byte string is a \<^typ>\<open>string\<close>, and \<^verbatim>\<open>b'pandas'\<close> is \<^term>\<open>''pandas''\<close>.

  A Python \<^verbatim>\<open>dict\<close> remembers the order in which its keys were first inserted and
  holds each key once.  It is modelled as the list of its items in that order; the
  predicate \<open>wf_dict\<close> says that no key occurs twice.
\<close>

type_synonym bytes = string

type_synonym ('k, 'v) py_dict = "('k \<times> 'v) list"

definition dict_keys :: "('k, 'v) py_dict \<Rightarrow> 'k list" where
  "dict_keys d = map fst d"

definition wf_dict :: "('k, 'v) py_dict \<Rightarrow> bool" where
  "wf_dict d = distinct (dict_keys d)"

text \<open>
  \<^verbatim>\<open>d[k] = v\<close>: a key that is already present keeps its position and gets the new
  value; a new key is appended after all others.
\<close>

fun dict_setitem :: "('k, 'v) py_dict \<Rightarrow> 'k \<Rightarrow> 'v \<Rightarrow> ('k, 'v) py_dict" where
  "dict_setitem [] k v = [(k, v)]"
| "dict_setitem ((k', v') # d) k v =
     (if k' = k then (k', v) # d else (k', v') # dict_setitem d k v)"

text \<open>
  The unpacking \<^verbatim>\<open>**m\<close> inside a dictionary display stores the items of \<^verbatim>\<open>m\<close>, in
  the order of \<^verbatim>\<open>m\<close>, into the dictionary built so far.
\<close>

definition dict_unpack :: "('k, 'v) py_dict \<Rightarrow> ('k, 'v) py_dict \<Rightarrow> ('k, 'v) py_dict" where
  "dict_unpack d m = foldl (\<lambda>acc (k, v). dict_setitem acc k v) d m"

text \<open>
  The exceptions a subscript \<^verbatim>\<open>x[k]\<close> can raise here: \<^verbatim>\<open>KeyError(k)\<close> when \<^verbatim>\<open>x\<close> is a
  dictionary without the key \<^verbatim>\<open>k\<close>, and \<^verbatim>\<open>TypeError\<close> when \<^verbatim>\<open>x\<close> is \<^verbatim>\<open>None\<close>, which is
  not subscriptable.  In Python's exception hierarchy \<^verbatim>\<open>KeyError\<close> is a subclass of
  \<^verbatim>\<open>LookupError\<close> and \<^verbatim>\<open>TypeError\<close> is not.
\<close>

datatype 'k py_error = KeyError 'k | TypeError


text \<open>
  \<^verbatim>\<open>d[k]\<close> as an expression on a dictionary: the value stored at \<^verbatim>\<open>k\<close>, or
  \<^verbatim>\<open>KeyError(k)\<close> when the key is absent.  (The script never uses \<^verbatim>\<open>d.get(k)\<close>, which
  would give a default.)
\<close>

definition dict_getitem :: "('k, 'v) py_dict \<Rightarrow> 'k \<Rightarrow> 'k py_error + 'v" where
  "dict_getitem d k = (case map_of d k of None \<Rightarrow> Inl (KeyError k) | Some v \<Rightarrow> Inr v)"

section \<open>The steps of the script that are its own code\<close>

text \<open>
  The script is a straight line of calls.  Two of its steps are Python of its own: the
  dictionary display that merges the metadata (lines 48--52) and the subscript that
  looks the custom key up again (line 68).  They are modelled below.  The other steps
  (\<^verbatim>\<open>pa.Table.from_pandas\<close>, \<^verbatim>\<open>json.dumps\<close>, \<^verbatim>\<open>json.loads\<close>,
  \<^verbatim>\<open>replace_schema_metadata\<close>, \<^verbatim>\<open>pq.write_table\<close>, \<^verbatim>\<open>pq.read_table\<close>, \<^verbatim>\<open>to_pandas\<close>) are
  calls into pandas, pyarrow and the \<^verbatim>\<open>json\<close> module, whose code is not part of the
  script; the mappings and tables they produce appear here as arguments.
\<close>

text \<open>
  Lines 48--52: \<^verbatim>\<open>combined_meta = { custom_meta_key.encode() : custom_meta_json.encode(),
  **existing_meta }\<close>.  The display is evaluated left to right: first the item for the
  application's key, then the unpacking of the existing mapping.  The two arguments
  \<open>key\<close> and \<open>val\<close> are the byte strings \<^verbatim>\<open>custom_meta_key.encode()\<close> and
  \<^verbatim>\<open>custom_meta_json.encode()\<close>.
\<close>

definition combined_meta ::
  "(bytes, bytes) py_dict \<Rightarrow> bytes \<Rightarrow> bytes \<Rightarrow> (bytes, bytes) py_dict" where
  "combined_meta existing_meta key val = dict_unpack (dict_setitem [] key val) existing_meta"



text \<open>The two byte strings the script uses as keys.\<close>

definition custom_meta_key :: bytes where
  "custom_meta_key = ''weatherapp.iot''"

definition pandas_key :: bytes where
  "pandas_key = ''pandas''"

section \<open>Facts about dictionaries\<close>

lemma map_of_dict_setitem: "map_of (dict_setitem d k v) = (map_of d)(k \<mapsto> v)"
  by (induction d) (auto simp: fun_eq_iff)

lemma dict_setitem_fresh:
  "k \<notin> set (dict_keys d) \<Longrightarrow> dict_setitem d k v = d @ [(k, v)]"
  by (induction d) (auto simp: dict_keys_def)

lemma dict_keys_setitem:
  "dict_keys (dict_setitem d k v) =
     (if k \<in> set (dict_keys d) then dict_keys d else dict_keys d @ [k])"
proof (induction d)
  case Nil
  show ?case by (simp add: dict_keys_def)
next
  case (Cons e d)
  obtain a b where e: "e = (a, b)" by (cases e)
  show ?case using Cons.IH by (cases "a = k") (simp_all add: e dict_keys_def)
qed

lemma wf_dict_setitem: "wf_dict d \<Longrightarrow> wf_dict (dict_setitem d k v)"
  by (simp add: wf_dict_def dict_keys_setitem)

lemma wf_dict_unpack: "wf_dict d \<Longrightarrow> wf_dict (dict_unpack d m)"
  unfolding dict_unpack_def
  by (induction m arbitrary: d) (auto simp: wf_dict_setitem)

lemma map_of_dict_unpack: "map_of (dict_unpack d m) = map_of d ++ map_of (rev m)"
  unfolding dict_unpack_def
proof (induction m arbitrary: d)
  case Nil
  show ?case by simp
next
  case (Cons e m)
  obtain a b where e: "e = (a, b)" by (cases e)
  show ?case
    by (simp add: e Cons.IH map_of_dict_setitem fun_eq_iff map_add_def split: option.splits)
qed

text \<open>
  The shape of a display \<^verbatim>\<open>{k: x, ..., **m}\<close> whose first key is \<open>k\<close>: the first key
  stays first, it ends up with the value \<open>m\<close> gives it if \<open>m\<close> has it, and the other
  items of \<open>m\<close> follow in the order of \<open>m\<close>.
\<close>

lemma dict_unpack_first_key:
  assumes "distinct (map fst (acc @ m))" and "k \<notin> fst ` set acc"
  shows "dict_unpack ((k, x) # acc) m =
           (k, case map_of m k of None \<Rightarrow> x | Some w \<Rightarrow> w) # acc @ filter (\<lambda>e. fst e \<noteq> k) m"
  using assms unfolding dict_unpack_def
proof (induction m arbitrary: acc x)
  case Nil
  show ?case by simp
next
  case (Cons e m)
  obtain a b where e: "e = (a, b)" by (cases e)
  show ?case
  proof (cases "a = k")
    case True
    from Cons.prems e True have nk: "k \<notin> fst ` set m" and d: "distinct (map fst (acc @ m))"
      by auto
    from nk have none: "map_of m k = None" by (simp add: map_of_eq_None_iff)
    show ?thesis using Cons.IH [OF d Cons.prems(2), of b] by (simp add: e True none)
  next
    case False
    from Cons.prems e have fresh: "a \<notin> set (dict_keys acc)" by (auto simp: dict_keys_def)
    from Cons.prems e have d: "distinct (map fst ((acc @ [(a, b)]) @ m))" by auto
    from Cons.prems(2) False have nk: "k \<notin> fst ` set (acc @ [(a, b)])" by auto
    show ?thesis using Cons.IH [OF d nk, of x] False
      by (simp add: e dict_setitem_fresh [OF fresh])
  qed
qed

lemma combined_meta_shape:
  assumes "wf_dict existing_meta"
  shows "combined_meta existing_meta key val =
           (key, case map_of existing_meta key of None \<Rightarrow> val | Some w \<Rightarrow> w)
             # filter (\<lambda>e. fst e \<noteq> key) existing_meta"
  using dict_unpack_first_key [of "[]" existing_meta key val] assms
  by (simp add: combined_meta_def wf_dict_def dict_keys_def)

lemma wf_combined_meta: "wf_dict (combined_meta existing_meta key val)"
  unfolding combined_meta_def
  by (rule wf_dict_unpack) (simp add: wf_dict_def dict_keys_def)

lemma dict_getitem_Inr_iff: "dict_getitem d k = Inr v \<longleftrightarrow> map_of d k = Some v"
  by (simp add: dict_getitem_def split: option.splits)

lemma dict_getitem_iff_member:
  "wf_dict d \<Longrightarrow> dict_getitem d k = Inr v \<longleftrightarrow> (k, v) \<in> set d"
  by (simp add: dict_getitem_Inr_iff wf_dict_def dict_keys_def)


lemma map_of_filter_other_keys:
  "k \<noteq> key \<Longrightarrow> map_of (filter (\<lambda>e. fst e \<noteq> key) d) k = map_of d k"
  by (induction d) auto

lemma dict_getitem_combined_meta:
  "wf_dict existing_meta \<Longrightarrow>
   dict_getitem (combined_meta existing_meta key val) k =
     (if k = key
      then (case map_of existing_meta key of None \<Rightarrow> Inr val | Some w \<Rightarrow> Inr w)
      else dict_getitem existing_meta k)"
  by (simp add: combined_meta_shape dict_getitem_def map_of_filter_other_keys
           split: option.splits)


text \<open>
  The reserved key \<^verbatim>\<open>b'pandas'\<close> of the existing mapping keeps its value through the
  merge, whatever the application's key holds, as long as the two keys differ.
\<close>

lemma combined_meta_keeps_pandas:
  assumes "wf_dict existing_meta" and "key \<noteq> pandas_key"
  shows "dict_getitem (combined_meta existing_meta key val) pandas_key =
         dict_getitem existing_meta pandas_key"
  using assms by (simp add: dict_getitem_combined_meta)

section \<open>The merge of lines 48--52\<close>

text \<open>
  C1 (as amended).  For every existing schema metadata mapping \<open>M\<close>, namespaced key \<open>k\<close>
  and encoded value \<open>v\<close>, the merged mapping contains every entry of \<open>M\<close> whose key is
  not \<open>k\<close>, and it contains the entry \<open>k \<mapsto> v\<close> unless \<open>M\<close> already has the key \<open>k\<close>
  with a value other than \<open>v\<close>.  Containing an entry is meant both ways: the item is in
  the item list, and looking the key up gives the value.
\<close>

theorem combined_meta_contains:
  assumes "wf_dict existing_meta"
  shows "((key \<in> set (dict_keys existing_meta) \<longrightarrow> (key, val) \<in> set existing_meta) \<longrightarrow>
            (key, val) \<in> set (combined_meta existing_meta key val) \<and>
            dict_getitem (combined_meta existing_meta key val) key = Inr val) \<and>
         (\<forall>e \<in> set existing_meta. fst e \<noteq> key \<longrightarrow>
            e \<in> set (combined_meta existing_meta key val) \<and>
            dict_getitem (combined_meta existing_meta key val) (fst e) = Inr (snd e))"
proof (intro conjI impI ballI)
  assume h: "key \<in> set (dict_keys existing_meta) \<longrightarrow> (key, val) \<in> set existing_meta"
  have "dict_getitem existing_meta key = Inr val \<or> map_of existing_meta key = None"
  proof (cases "key \<in> set (dict_keys existing_meta)")
    case True
    with h assms show ?thesis by (simp add: dict_getitem_iff_member)
  next
    case False
    then show ?thesis by (simp add: dict_keys_def map_of_eq_None_iff)
  qed
  then show g: "dict_getitem (combined_meta existing_meta key val) key = Inr val"
    using assms by (auto simp: dict_getitem_combined_meta dict_getitem_Inr_iff)
  then show "(key, val) \<in> set (combined_meta existing_meta key val)"
    by (simp add: dict_getitem_iff_member [OF wf_combined_meta])
next
  fix e assume e: "e \<in> set existing_meta" "fst e \<noteq> key"
  then have "dict_getitem existing_meta (fst e) = Inr (snd e)"
    using assms by (simp add: dict_getitem_iff_member)
  with e show g: "dict_getitem (combined_meta existing_meta key val) (fst e) = Inr (snd e)"
    using assms by (simp add: dict_getitem_combined_meta)
  then show "e \<in> set (combined_meta existing_meta key val)"
    by (simp add: dict_getitem_iff_member [OF wf_combined_meta])
qed

text \<open>
  The amended statement at the metadata of a freshly converted table, which holds the
  reserved key only.
\<close>

theorem combined_meta_contains_witness:
  "wf_dict [(pandas_key, ''{pandas-meta}'')] \<and>
   custom_meta_key \<notin> set (dict_keys [(pandas_key, ''{pandas-meta}'')]) \<and>
   (pandas_key, ''{pandas-meta}'') \<in> set [(pandas_key, ''{pandas-meta}'')] \<and>
   fst (pandas_key, ''{pandas-meta}'') \<noteq> custom_meta_key \<and>
   dict_getitem
     (combined_meta [(pandas_key, ''{pandas-meta}'')] custom_meta_key ''{user-meta}'')
     custom_meta_key = Inr ''{user-meta}'' \<and>
   dict_getitem
     (combined_meta [(pandas_key, ''{pandas-meta}'')] custom_meta_key ''{user-meta}'')
     pandas_key = Inr ''{pandas-meta}''"
proof -
  let ?M = "[(pandas_key, ''{pandas-meta}'')]"
  have wf: "wf_dict ?M" by (simp add: wf_dict_def dict_keys_def)
  have ne: "pandas_key \<noteq> custom_meta_key" by (simp add: pandas_key_def custom_meta_key_def)
  have absent: "custom_meta_key \<notin> set (dict_keys ?M)" using ne by (simp add: dict_keys_def)
  from combined_meta_contains [OF wf, of custom_meta_key "''{user-meta}''"] absent ne
  show ?thesis using wf by simp
qed

text \<open>
  The statement of C1 without the proviso fails when the key is already taken: with
  \<^verbatim>\<open>existing_meta = {b'pandas': b'{pandas-meta}', b'weatherapp.iot': b'{old}'}\<close> the display
  \<^verbatim>\<open>{b'weatherapp.iot': b'{new}', **existing_meta}\<close> does not contain the new entry.
\<close>

theorem combined_meta_contains_counterexample:
  "wf_dict [(''pandas'', ''{pandas-meta}''), (''weatherapp.iot'', ''{old}'')] \<and>
   (''weatherapp.iot'', ''{new}'') \<notin>
     set (combined_meta [(''pandas'', ''{pandas-meta}''), (''weatherapp.iot'', ''{old}'')]
            ''weatherapp.iot'' ''{new}'') \<and>
   dict_getitem
     (combined_meta [(''pandas'', ''{pandas-meta}''), (''weatherapp.iot'', ''{old}'')]
        ''weatherapp.iot'' ''{new}'')
     ''weatherapp.iot'' \<noteq> Inr ''{new}''"
  by (simp add: wf_dict_def dict_keys_def combined_meta_def dict_unpack_def dict_getitem_def)

text \<open>
  C9.  The merge resolves a collision in favour of the existing mapping: if \<open>k\<close> is
  already a key of \<open>M\<close>, the display \<^verbatim>\<open>{k: v, **M}\<close> maps \<open>k\<close> to the value \<open>M\<close> has for it;
  when that value differs from \<open>v\<close>, the new entry \<open>k \<mapsto> v\<close> is nowhere in the result.
\<close>

theorem combined_meta_existing_wins:
  assumes "wf_dict existing_meta" and "key \<in> set (dict_keys existing_meta)"
  shows "\<exists>old. dict_getitem existing_meta key = Inr old \<and>
               dict_getitem (combined_meta existing_meta key val) key = Inr old \<and>
               (old \<noteq> val \<longrightarrow>
                  dict_getitem (combined_meta existing_meta key val) key \<noteq> Inr val \<and>
                  (key, val) \<notin> set (combined_meta existing_meta key val))"
proof -
  from assms(2) obtain old where old: "map_of existing_meta key = Some old"
    by (metis dict_keys_def list.set_map map_of_eq_None_iff not_Some_eq)
  have merged: "dict_getitem (combined_meta existing_meta key val) key = Inr old"
    using assms(1) old by (simp add: dict_getitem_combined_meta)
  have "(key, val) \<notin> set (combined_meta existing_meta key val)" if "old \<noteq> val"
    using merged that by (simp add: dict_getitem_iff_member [OF wf_combined_meta, symmetric])
  with old merged show ?thesis by (auto simp: dict_getitem_Inr_iff)
qed

theorem combined_meta_existing_wins_witness:
  "wf_dict [(custom_meta_key, ''{earlier}''), (pandas_key, ''{pandas-meta}'')] \<and>
   custom_meta_key \<in>
     set (dict_keys [(custom_meta_key, ''{earlier}''), (pandas_key, ''{pandas-meta}'')]) \<and>
   ''{earlier}'' \<noteq> ''{later}'' \<and>
   dict_getitem
     (combined_meta [(custom_meta_key, ''{earlier}''), (pandas_key, ''{pandas-meta}'')]
        custom_meta_key ''{later}'')
     custom_meta_key = Inr ''{earlier}'' \<and>
   (custom_meta_key, ''{later}'') \<notin>
     set (combined_meta [(custom_meta_key, ''{earlier}''), (pandas_key, ''{pandas-meta}'')]
            custom_meta_key ''{later}'')"
proof -
  let ?M = "[(custom_meta_key, ''{earlier}''), (pandas_key, ''{pandas-meta}'')]"
  have wf: "wf_dict ?M"
    by (simp add: wf_dict_def dict_keys_def pandas_key_def custom_meta_key_def)
  have mem: "custom_meta_key \<in> set (dict_keys ?M)" by (simp add: dict_keys_def)
  have old: "dict_getitem ?M custom_meta_key = Inr ''{earlier}''"
    by (simp add: dict_getitem_def)
  from combined_meta_existing_wins [OF wf mem, of "''{later}''"] old wf mem
  show ?thesis by auto
qed

text \<open>
  C10 (as amended).  The merged mapping is ordered.  Its first entry has the
  application's namespaced key, and after it come the entries of the existing mapping
  whose key is not the namespaced key, in their original order.  When the namespaced
  key is not a key of the existing mapping, the merged mapping is the entry
  \<open>k \<mapsto> v\<close> followed by all entries of the existing mapping in their original order.
\<close>

theorem combined_meta_order:
  assumes "wf_dict existing_meta"
  shows "dict_keys (combined_meta existing_meta key val) =
           key # filter (\<lambda>k. k \<noteq> key) (dict_keys existing_meta) \<and>
         tl (combined_meta existing_meta key val) =
           filter (\<lambda>e. fst e \<noteq> key) existing_meta \<and>
         (key \<notin> set (dict_keys existing_meta) \<longrightarrow>
            combined_meta existing_meta key val = (key, val) # existing_meta)"
proof (intro conjI impI)
  show "dict_keys (combined_meta existing_meta key val) =
          key # filter (\<lambda>k. k \<noteq> key) (dict_keys existing_meta)"
    by (simp add: combined_meta_shape [OF assms] dict_keys_def filter_map comp_def)
  show "tl (combined_meta existing_meta key val) = filter (\<lambda>e. fst e \<noteq> key) existing_meta"
    by (simp add: combined_meta_shape [OF assms])
next
  assume absent: "key \<notin> set (dict_keys existing_meta)"
  then have none: "map_of existing_meta key = None"
    by (simp add: dict_keys_def map_of_eq_None_iff)
  from absent have "filter (\<lambda>e. fst e \<noteq> key) existing_meta = existing_meta"
    by (auto simp: dict_keys_def filter_id_conv)
  with none show "combined_meta existing_meta key val = (key, val) # existing_meta"
    by (simp add: combined_meta_shape [OF assms])
qed

theorem combined_meta_order_witness:
  "wf_dict [(pandas_key, ''{pandas-meta}''), (''loggerapp.iot'', ''{log-meta}'')] \<and>
   custom_meta_key \<notin>
     set (dict_keys [(pandas_key, ''{pandas-meta}''), (''loggerapp.iot'', ''{log-meta}'')]) \<and>
   combined_meta [(pandas_key, ''{pandas-meta}''), (''loggerapp.iot'', ''{log-meta}'')]
      custom_meta_key ''{user-meta}'' =
     [(custom_meta_key, ''{user-meta}''), (pandas_key, ''{pandas-meta}''),
      (''loggerapp.iot'', ''{log-meta}'')]"
proof -
  let ?M = "[(pandas_key, ''{pandas-meta}''), (''loggerapp.iot'', ''{log-meta}'')]"
  have wf: "wf_dict ?M" by (simp add: wf_dict_def dict_keys_def pandas_key_def)
  have absent: "custom_meta_key \<notin> set (dict_keys ?M)"
    by (simp add: dict_keys_def pandas_key_def custom_meta_key_def)
  from combined_meta_order [OF wf, of custom_meta_key "''{user-meta}''"] absent wf
  show ?thesis by simp
qed

text \<open>
  Read as ``the merged mapping is the new entry followed by the existing mapping'',
  C10 fails when the key is already taken.  With
  \<^verbatim>\<open>existing_meta = {b'pandas': b'{pandas-meta}', b'weatherapp.iot': b'{stale}'}\<close> the display
  \<^verbatim>\<open>{b'weatherapp.iot': b'{fresh}', **existing_meta}\<close> has two entries, not three, and the
  entry for \<^verbatim>\<open>b'pandas'\<close>, which came before that for \<^verbatim>\<open>b'weatherapp.iot'\<close>, now comes
  after it.
\<close>

theorem combined_meta_order_counterexample:
  "wf_dict [(''pandas'', ''{pandas-meta}''), (''weatherapp.iot'', ''{stale}'')] \<and>
   combined_meta [(''pandas'', ''{pandas-meta}''), (''weatherapp.iot'', ''{stale}'')]
      ''weatherapp.iot'' ''{fresh}'' =
     [(''weatherapp.iot'', ''{stale}''), (''pandas'', ''{pandas-meta}'')] \<and>
   tl (combined_meta [(''pandas'', ''{pandas-meta}''), (''weatherapp.iot'', ''{stale}'')]
         ''weatherapp.iot'' ''{fresh}'') \<noteq>
     [(''pandas'', ''{pandas-meta}''), (''weatherapp.iot'', ''{stale}'')]"
  by (simp add: wf_dict_def dict_keys_def combined_meta_def dict_unpack_def)

section \<open>Restoring the custom metadata (line 68)\<close>




end
